theory Spec2Isabelle
  imports Main "HOL-Library.Word"
begin

section \<open>Values that cross the dispatcher: thrown values, outcomes, events\<close>

text \<open>
  A JavaScript \<^verbatim>\<open>throw\<close> can carry any value. The dispatcher looks at a thrown value in
  three ways only: \<^verbatim>\<open>error instanceof LightweightError\<close>, \<^verbatim>\<open>error.message\<close>, and (for
  a \<^verbatim>\<open>LightweightError\<close>) \<^verbatim>\<open>error.code\<close> and \<^verbatim>\<open>error.type\<close>. So a thrown value is

  \<^item> an instance of the class \<^verbatim>\<open>LightweightError\<close> with its message, code and type;
  \<^item> any other value that is neither \<^verbatim>\<open>null\<close> nor \<^verbatim>\<open>undefined\<close>, with its
    \<^verbatim>\<open>message\<close>, \<^verbatim>\<open>code\<close> and \<^verbatim>\<open>type\<close> properties when they are strings
    (\<open>None\<close> when the property is missing): \<^verbatim>\<open>new Error("boom")\<close> is
    \<open>ErrorValue (Some ''boom'') None None\<close>;
  \<^item> \<^verbatim>\<open>null\<close> or \<^verbatim>\<open>undefined\<close>, on which every property read raises a TypeError.
\<close>

datatype thrown =
    LightweightError string string string
  | ErrorValue "string option" "string option" "string option"
  | Nullish

text \<open>The constructor of the class, with its default code and type.\<close>

definition new_LightweightError :: "string \<Rightarrow> string option \<Rightarrow> string option \<Rightarrow> thrown" where
  "new_LightweightError msg c t =
     LightweightError msg
       (case c of None \<Rightarrow> ''SERVER_ERROR'' | Some c' \<Rightarrow> c')
       (case t of None \<Rightarrow> ''ServerError'' | Some t' \<Rightarrow> t')"

text \<open>The TypeError the runtime raises itself (reading a property of a nullish value,
  calling something that is not a function). Its text belongs to the engine.\<close>

definition TypeError :: thrown where
  "TypeError = ErrorValue (Some ''TypeError'') None None"

text \<open>
  What calling a user function (or awaiting an \<^verbatim>\<open>async\<close> function) can do: return a value
  (directly or through a promise that fulfils), throw before returning anything, return a
  promise that rejects, or return a promise that never settles. The two failing cases are
  the same under \<^verbatim>\<open>await f()\<close> and differ under \<^verbatim>\<open>Promise.resolve(f()).catch(...)\<close>.
\<close>

datatype 'a completion =
    Returns 'a
  | ThrowsSync thrown
  | Rejects thrown
  | NeverSettles

text \<open>The state in which the promise of an \<^verbatim>\<open>async\<close> method ends.\<close>

datatype 'a outcome =
    Fulfilled 'a
  | Rejected thrown
  | Pending

section \<open>Plain objects used as dictionaries\<close>

text \<open>
  The registry keeps its tables in object literals (\<^verbatim>\<open>apiName2Id: {}\<close>,
  \<^verbatim>\<open>validators: { api: {}, msg: {} }\<close>) and reads them with \<^verbatim>\<open>table[name]\<close>. Such a read
  finds the table's own properties and, failing that, the members every object inherits
  from \<^verbatim>\<open>Object.prototype\<close>. The own properties are a map; the inherited names are the
  fixed list below.
\<close>

definition object_prototype_members :: "string list" where
  "object_prototype_members =
     [''constructor'', ''__proto__'', ''hasOwnProperty'', ''isPrototypeOf'',
      ''propertyIsEnumerable'', ''toLocaleString'', ''toString'', ''valueOf'',
      ''__defineGetter__'', ''__defineSetter__'', ''__lookupGetter__'', ''__lookupSetter__'']"

datatype 'a property = Value 'a | ProtoMember string | Undefined

definition get_property :: "(string \<rightharpoonup> 'a) \<Rightarrow> string \<Rightarrow> 'a property" where
  "get_property table name =
     (case table name of
        Some v \<Rightarrow> Value v
      | None \<Rightarrow> if name \<in> set object_prototype_members then ProtoMember name else Undefined)"

section \<open>The service registry: RuntimeProtocolGenerator\<close>

datatype serialization_mode = Json | Binary | Auto

type_synonym 'v validator = "'v \<Rightarrow> thrown + bool"

record 'v direction_validators =
  req :: "'v validator option"
  res :: "'v validator option"

record 'v protocol_options =
  opt_enableValidation :: "bool option"
  opt_debug :: "bool option"
  opt_serializationMode :: "serialization_mode option"
  opt_customValidators :: "(string \<rightharpoonup> 'v direction_validators) option"

record 'v generator =
  enableValidation :: bool
  debug :: bool
  serializationMode :: serialization_mode
  customValidators :: "string \<rightharpoonup> 'v direction_validators"
  apiName2Id :: "string \<rightharpoonup> nat"
  id2ApiName :: "nat \<rightharpoonup> string"
  msgName2Id :: "string \<rightharpoonup> nat"
  id2MsgName :: "nat \<rightharpoonup> string"
  nextId :: nat
  apiNames :: "string list"
  msgNames :: "string list"
  api_validators :: "string \<rightharpoonup> 'v direction_validators"
  msg_validators :: "string \<rightharpoonup> 'v validator"

text \<open>The constructor: every option has a default, the tables start empty, the counter at 0.\<close>

definition new_generator :: "'v protocol_options \<Rightarrow> 'v generator" where
  "new_generator options =
     \<lparr> enableValidation = (case opt_enableValidation options of None \<Rightarrow> True | Some b \<Rightarrow> b),
       debug = (case opt_debug options of None \<Rightarrow> False | Some b \<Rightarrow> b),
       serializationMode = (case opt_serializationMode options of None \<Rightarrow> Auto | Some m \<Rightarrow> m),
       customValidators = (case opt_customValidators options of None \<Rightarrow> Map.empty | Some c \<Rightarrow> c),
       apiName2Id = Map.empty, id2ApiName = Map.empty,
       msgName2Id = Map.empty, id2MsgName = Map.empty,
       nextId = 0,
       apiNames = [], msgNames = [],
       api_validators = Map.empty, msg_validators = Map.empty \<rparr>"

definition default_options :: "'v protocol_options" where
  "default_options =
     \<lparr> opt_enableValidation = None, opt_debug = None,
       opt_serializationMode = None, opt_customValidators = None \<rparr>"

text \<open>
  \<^verbatim>\<open>registerApi\<close>: when \<^verbatim>\<open>apiName2Id[name] !== undefined\<close> the method returns what the read
  found, which is the stored id for an own property and the inherited member otherwise.
  Only after that test does it take \<^verbatim>\<open>nextId++\<close>, fill both tables, append the name to
  \<^verbatim>\<open>apiNames\<close> unless it is there, and store the validator when one is given and
  validation is enabled. The result is the returned value and the generator afterwards.
\<close>

definition registerApi ::
  "'v generator \<Rightarrow> string \<Rightarrow> 'v direction_validators option \<Rightarrow> nat property \<times> 'v generator" where
  "registerApi g apiName validator =
     (case get_property (apiName2Id g) apiName of
        Value i \<Rightarrow> (Value i, g)
      | ProtoMember m \<Rightarrow> (ProtoMember m, g)
      | Undefined \<Rightarrow>
          (let serviceId = nextId g;
               g1 = g\<lparr> nextId := nextId g + 1,
                       apiName2Id := (apiName2Id g)(apiName \<mapsto> serviceId),
                       id2ApiName := (id2ApiName g)(serviceId \<mapsto> apiName) \<rparr>;
               g2 = (if apiName \<in> set (apiNames g1) then g1
                     else g1\<lparr> apiNames := apiNames g1 @ [apiName] \<rparr>);
               g3 = (case validator of
                       Some v \<Rightarrow>
                         if enableValidation g2
                         then g2\<lparr> api_validators := (api_validators g2)(apiName \<mapsto> v) \<rparr>
                         else g2
                     | None \<Rightarrow> g2)
           in (Value serviceId, g3)))"

definition registerMsg ::
  "'v generator \<Rightarrow> string \<Rightarrow> 'v validator option \<Rightarrow> nat property \<times> 'v generator" where
  "registerMsg g msgName validator =
     (case get_property (msgName2Id g) msgName of
        Value i \<Rightarrow> (Value i, g)
      | ProtoMember m \<Rightarrow> (ProtoMember m, g)
      | Undefined \<Rightarrow>
          (let serviceId = nextId g;
               g1 = g\<lparr> nextId := nextId g + 1,
                       msgName2Id := (msgName2Id g)(msgName \<mapsto> serviceId),
                       id2MsgName := (id2MsgName g)(serviceId \<mapsto> msgName) \<rparr>;
               g2 = (if msgName \<in> set (msgNames g1) then g1
                     else g1\<lparr> msgNames := msgNames g1 @ [msgName] \<rparr>);
               g3 = (case validator of
                       Some v \<Rightarrow>
                         if enableValidation g2
                         then g2\<lparr> msg_validators := (msg_validators g2)(msgName \<mapsto> v) \<rparr>
                         else g2
                     | None \<Rightarrow> g2)
           in (Value serviceId, g3)))"

datatype service_kind = Api | Msg

definition getServiceId :: "'v generator \<Rightarrow> string \<Rightarrow> service_kind \<Rightarrow> nat property" where
  "getServiceId g serviceName kind =
     (case kind of
        Api \<Rightarrow> get_property (apiName2Id g) serviceName
      | Msg \<Rightarrow> get_property (msgName2Id g) serviceName)"

definition getServiceName :: "'v generator \<Rightarrow> nat \<Rightarrow> service_kind \<Rightarrow> string option" where
  "getServiceName g serviceId kind =
     (case kind of Api \<Rightarrow> id2ApiName g serviceId | Msg \<Rightarrow> id2MsgName g serviceId)"

text \<open>\<^verbatim>\<open>reset\<close> empties the tables and the stored validators and puts the counter back to 0;
  the options stay.\<close>

definition reset :: "'v generator \<Rightarrow> 'v generator" where
  "reset g =
     g\<lparr> apiName2Id := Map.empty, id2ApiName := Map.empty,
        msgName2Id := Map.empty, id2MsgName := Map.empty,
        nextId := 0, apiNames := [], msgNames := [],
        api_validators := Map.empty, msg_validators := Map.empty \<rparr>"


subsection \<open>Validation\<close>

text \<open>
  \<^verbatim>\<open>this.protocol.validators?.api[apiName]?.req\<close> reads the direction's slot of the entry
  stored for the name. For a name that is only an inherited member of the table the read
  \<^verbatim>\<open>?.req\<close> of that member is \<^verbatim>\<open>undefined\<close>, as for a missing entry, so the map of own
  entries decides. The same holds for \<^verbatim>\<open>this.options.customValidators[apiName]?.req\<close>.
  The debug line written to the console on a failed validation is not part of the model.
\<close>

datatype api_direction = Req | Res

definition slot :: "'v direction_validators \<Rightarrow> api_direction \<Rightarrow> 'v validator option" where
  "slot vs dir = (case dir of Req \<Rightarrow> req vs | Res \<Rightarrow> res vs)"

definition registered_validator :: "'v generator \<Rightarrow> string \<Rightarrow> api_direction \<Rightarrow> 'v validator option" where
  "registered_validator g apiName dir =
     (case api_validators g apiName of None \<Rightarrow> None | Some vs \<Rightarrow> slot vs dir)"

definition custom_validator :: "'v generator \<Rightarrow> string \<Rightarrow> api_direction \<Rightarrow> 'v validator option" where
  "custom_validator g apiName dir =
     (case customValidators g apiName of None \<Rightarrow> None | Some vs \<Rightarrow> slot vs dir)"

definition validateRequest :: "'v generator \<Rightarrow> string \<Rightarrow> 'v \<Rightarrow> thrown + bool" where
  "validateRequest g apiName dat =
     (if \<not> enableValidation g then Inr True
      else case registered_validator g apiName Req of
             Some validator \<Rightarrow> validator dat
           | None \<Rightarrow>
               (case custom_validator g apiName Req of
                  Some customValidator \<Rightarrow> customValidator dat
                | None \<Rightarrow> Inr True))"

definition validateResponse :: "'v generator \<Rightarrow> string \<Rightarrow> 'v \<Rightarrow> thrown + bool" where
  "validateResponse g apiName dat =
     (if \<not> enableValidation g then Inr True
      else case registered_validator g apiName Res of
             Some validator \<Rightarrow> validator dat
           | None \<Rightarrow>
               (case custom_validator g apiName Res of
                  Some customValidator \<Rightarrow> customValidator dat
                | None \<Rightarrow> Inr True))"

text \<open>
  \<^verbatim>\<open>validateMessage\<close> reads \<^verbatim>\<open>this.protocol.validators?.msg[msgName]\<close> and calls whatever
  truthy value it finds. For an inherited member that is a call of a built-in of the
  runtime with the message as its argument; what such a call yields (a truthy or falsy
  value, or a TypeError) is the runtime's business and is the parameter \<open>call_member\<close>.
  There is no read of \<^verbatim>\<open>customValidators\<close> in this method.
\<close>

definition validateMessage ::
  "(string \<Rightarrow> 'v \<Rightarrow> thrown + bool) \<Rightarrow> 'v generator \<Rightarrow> string \<Rightarrow> 'v \<Rightarrow> thrown + bool" where
  "validateMessage call_member g msgName dat =
     (if \<not> enableValidation g then Inr True
      else case get_property (msg_validators g) msgName of
             Value validator \<Rightarrow> validator dat
           | ProtoMember m \<Rightarrow> call_member m dat
           | Undefined \<Rightarrow> Inr True)"

text \<open>
  The fallback order in the words of the specification: validation disabled gives true;
  otherwise the explicit validator of the service and direction decides; otherwise the
  custom validator of that name and direction; otherwise everything is accepted.
\<close>

definition validation_order ::
  "bool \<Rightarrow> 'v validator option \<Rightarrow> 'v validator option \<Rightarrow> 'v \<Rightarrow> thrown + bool" where
  "validation_order enabled explicit custom dat =
     (if \<not> enabled then Inr True
      else case explicit of
             Some v \<Rightarrow> v dat
           | None \<Rightarrow> (case custom of Some c \<Rightarrow> c dat | None \<Rightarrow> Inr True))"

section \<open>The codec\<close>

text \<open>
  \<^verbatim>\<open>serialize\<close> and \<^verbatim>\<open>deserialize\<close> are thin layers over four built-ins of the runtime:
  \<^verbatim>\<open>JSON.stringify\<close> (which returns a text, returns \<^verbatim>\<open>undefined\<close> for a value with no
  JSON form, or throws), \<^verbatim>\<open>JSON.parse\<close> (which returns a value or throws),
  \<^verbatim>\<open>TextEncoder.encode\<close> and \<^verbatim>\<open>TextDecoder.decode\<close>. They are parameters of the model.
\<close>

record 'v json_runtime =
  JSON_stringify :: "'v \<Rightarrow> thrown + string option"
  JSON_parse :: "string \<Rightarrow> thrown + 'v"
  TextEncoder_encode :: "string \<Rightarrow> 8 word list"
  TextDecoder_decode :: "8 word list \<Rightarrow> string"

text \<open>What \<^verbatim>\<open>serialize\<close> hands back: a string, a \<^verbatim>\<open>Uint8Array\<close>, or the
  \<^verbatim>\<open>undefined\<close> that \<^verbatim>\<open>JSON.stringify\<close> returned.\<close>

datatype wire = Text string | Bytes "8 word list" | NoText

definition choose_mode :: "'v json_runtime \<Rightarrow> 'v \<Rightarrow> serialization_mode \<Rightarrow> thrown + serialization_mode" where
  "choose_mode R dat mode =
     (if mode = Auto
      then (case JSON_stringify R dat of
              Inl e \<Rightarrow> Inl e
            | Inr None \<Rightarrow> Inl TypeError
            | Inr (Some jsonStr) \<Rightarrow> Inr (if length jsonStr > 1024 then Binary else Json))
      else Inr mode)"

definition serialize ::
  "'v json_runtime \<Rightarrow> 'v generator \<Rightarrow> 'v \<Rightarrow> serialization_mode option \<Rightarrow> thrown + wire" where
  "serialize R g dat mode_arg =
     (case choose_mode R dat (case mode_arg of None \<Rightarrow> serializationMode g | Some m \<Rightarrow> m) of
        Inl e \<Rightarrow> Inl e
      | Inr mode \<Rightarrow>
          (if mode = Json
           then (case JSON_stringify R dat of
                   Inl e \<Rightarrow> Inl e
                 | Inr None \<Rightarrow> Inr NoText
                 | Inr (Some jsonStr) \<Rightarrow> Inr (Text jsonStr))
           else (case JSON_stringify R dat of
                   Inl e \<Rightarrow> Inl e
                 | Inr None \<Rightarrow> Inr (Bytes (TextEncoder_encode R []))
                 | Inr (Some jsonStr) \<Rightarrow> Inr (Bytes (TextEncoder_encode R jsonStr)))))"

definition deserialize :: "'v json_runtime \<Rightarrow> wire \<Rightarrow> thrown + 'v" where
  "deserialize R w =
     (case w of
        Text s \<Rightarrow> JSON_parse R s
      | Bytes b \<Rightarrow> JSON_parse R (TextDecoder_decode R b)
      | NoText \<Rightarrow> JSON_parse R (TextDecoder_decode R []))"

definition round_trip ::
  "'v json_runtime \<Rightarrow> 'v generator \<Rightarrow> 'v \<Rightarrow> serialization_mode \<Rightarrow> thrown + 'v" where
  "round_trip R g x mode =
     (case serialize R g x (Some mode) of Inl e \<Rightarrow> Inl e | Inr w \<Rightarrow> deserialize R w)"

text \<open>A runtime over the two boolean values, with one byte per character, to run the codec on.\<close>

definition bool_runtime :: "bool json_runtime" where
  "bool_runtime =
     \<lparr> JSON_stringify = (\<lambda>b. Inr (Some (if b then ''true'' else ''false''))),
       JSON_parse = (\<lambda>s. if s = ''true'' then Inr True
                          else if s = ''false'' then Inr False
                          else Inl (ErrorValue (Some ''SyntaxError'') None None)),
       TextEncoder_encode = map (\<lambda>c. word_of_nat (of_char c)),
       TextDecoder_decode = map (\<lambda>w. char_of (unat w)) \<rparr>"


section \<open>The dispatcher: LightweightServer\<close>

record call_context =
  connId :: string
  clientIp :: string
  startTime :: nat

text \<open>
  A flow hook is called with the data of its lifecycle point, the context and a
  continuation. What the dispatcher can see of one run of a hook is whether the
  continuation was invoked before the hook finished, and how the hook finished.
\<close>

record middleware_run =
  calls_next :: bool
  ends :: "unit completion"

record 'v flows =
  preApiCall :: "(string \<Rightarrow> 'v \<Rightarrow> call_context \<Rightarrow> middleware_run) option"
  preApiReturn :: "(string \<Rightarrow> 'v \<Rightarrow> call_context \<Rightarrow> middleware_run) option"
  postApiCall :: "(string \<Rightarrow> 'v \<Rightarrow> 'v \<Rightarrow> call_context \<Rightarrow> middleware_run) option"
  preMsgReceive :: "(string \<Rightarrow> 'v \<Rightarrow> call_context \<Rightarrow> middleware_run) option"

type_synonym 'v api_handler = "'v \<Rightarrow> call_context \<Rightarrow> 'v completion"
type_synonym 'v msg_handler = "'v \<Rightarrow> call_context \<Rightarrow> unit completion"

record 'v server =
  protocolGenerator :: "'v generator"
  apiHandlers :: "string \<rightharpoonup> 'v api_handler"
  msgHandlers :: "string \<rightharpoonup> 'v msg_handler list"
  flows :: "'v flows"

definition no_flows :: "'v flows" where
  "no_flows = \<lparr> preApiCall = None, preApiReturn = None, postApiCall = None, preMsgReceive = None \<rparr>"

definition new_server :: "'v protocol_options \<Rightarrow> 'v server" where
  "new_server options =
     \<lparr> protocolGenerator = new_generator options,
       apiHandlers = Map.empty, msgHandlers = Map.empty, flows = no_flows \<rparr>"

definition implementApi :: "'v server \<Rightarrow> string \<Rightarrow> 'v api_handler \<Rightarrow> 'v server" where
  "implementApi s apiName handler =
     s\<lparr> protocolGenerator := snd (registerApi (protocolGenerator s) apiName None),
        apiHandlers := (apiHandlers s)(apiName \<mapsto> handler) \<rparr>"

definition listenMsg :: "'v server \<Rightarrow> string \<Rightarrow> 'v msg_handler \<Rightarrow> 'v server" where
  "listenMsg s msgName handler =
     s\<lparr> protocolGenerator := snd (registerMsg (protocolGenerator s) msgName None),
        msgHandlers := (msgHandlers s)(msgName \<mapsto>
          (case msgHandlers s msgName of None \<Rightarrow> [] | Some hs \<Rightarrow> hs) @ [handler]) \<rparr>"

text \<open>\<^verbatim>\<open>setFlows\<close> merges shallowly: a point named in the argument replaces the hook bound
  before, every other point keeps its hook.\<close>

definition setFlows :: "'v server \<Rightarrow> 'v flows \<Rightarrow> 'v server" where
  "setFlows s f =
     s\<lparr> flows :=
          \<lparr> preApiCall = (case preApiCall f of None \<Rightarrow> preApiCall (flows s) | Some h \<Rightarrow> Some h),
            preApiReturn = (case preApiReturn f of None \<Rightarrow> preApiReturn (flows s) | Some h \<Rightarrow> Some h),
            postApiCall = (case postApiCall f of None \<Rightarrow> postApiCall (flows s) | Some h \<Rightarrow> Some h),
            preMsgReceive = (case preMsgReceive f of None \<Rightarrow> preMsgReceive (flows s) | Some h \<Rightarrow> Some h) \<rparr> \<rparr>"

subsection \<open>The result envelope and the observable events of a call\<close>

record api_error =
  message :: string
  code :: string
  type :: string

datatype 'v api_return = IsSucc 'v | NotSucc api_error

datatype flow_point = PreApiCall | PreApiReturn | PostApiCall | PreMsgReceive

text \<open>One constructor per call of \<^verbatim>\<open>context.logger\<close> in the two dispatch methods.\<close>

datatype log_line =
    ApiStarted string
  | ApiCompleted string
  | ApiFailed string thrown
  | PostApiCallFailed thrown
  | MsgInvalid string
  | MsgCanceled
  | MsgNoHandler string
  | MsgStarted string
  | MsgHandlerFailed string thrown
  | MsgFailed string thrown

text \<open>
  A call leaves a trace: each hook that was run, each handler that was invoked (a message
  handler with its position in the list bound to the name), each line handed to the logger.
\<close>

datatype 'v event =
    FlowRun flow_point
  | ApiHandlerCalled string 'v
  | MsgHandlerCalled string nat 'v
  | Logged log_line

definition with_events :: "'v event list \<Rightarrow> 'a \<times> 'v event list \<Rightarrow> 'a \<times> 'v event list" where
  "with_events es r = (fst r, es @ snd r)"

fun is_ApiHandlerCalled :: "'v event \<Rightarrow> bool" where
  "is_ApiHandlerCalled (ApiHandlerCalled n q) = True"
| "is_ApiHandlerCalled e = False"

definition api_handler_calls :: "'v event list \<Rightarrow> nat" where
  "api_handler_calls t = length (filter is_ApiHandlerCalled t)"

definition failure :: "string \<Rightarrow> string \<Rightarrow> string \<Rightarrow> 'v api_return" where
  "failure m c t = NotSucc \<lparr> message = m, code = c, type = t \<rparr>"

subsection \<open>handleApiCall\<close>

text \<open>
  The body of the \<^verbatim>\<open>try\<close> block, from its last statements to its first. Each part yields
  how the block ends there (a returned envelope, a thrown value, or an \<^verbatim>\<open>await\<close> that never
  resumes) and the trace so far.

  After the completion line, \<^verbatim>\<open>Promise.resolve(this.flows.postApiCall(...)).catch(...)\<close>:
  the hook is called while the argument of \<^verbatim>\<open>Promise.resolve\<close> is evaluated, so a hook that
  throws before returning throws into the \<^verbatim>\<open>try\<close> block; a returned promise is not
  awaited, and its rejection goes to the logger.
\<close>

definition api_post_flow ::
  "'v server \<Rightarrow> string \<Rightarrow> 'v \<Rightarrow> 'v \<Rightarrow> call_context \<Rightarrow> 'v api_return outcome \<times> 'v event list" where
  "api_post_flow s apiName rq result ctx =
     with_events [Logged (ApiCompleted apiName)]
       (case postApiCall (flows s) of
          None \<Rightarrow> (Fulfilled (IsSucc result), [])
        | Some hook \<Rightarrow>
            (case ends (hook apiName rq result ctx) of
               ThrowsSync e \<Rightarrow> (Rejected e, [FlowRun PostApiCall])
             | Rejects e \<Rightarrow>
                 (Fulfilled (IsSucc result), [FlowRun PostApiCall, Logged (PostApiCallFailed e)])
             | Returns u \<Rightarrow> (Fulfilled (IsSucc result), [FlowRun PostApiCall])
             | NeverSettles \<Rightarrow> (Fulfilled (IsSucc result), [FlowRun PostApiCall])))"

definition api_return_flow ::
  "'v server \<Rightarrow> string \<Rightarrow> 'v \<Rightarrow> 'v \<Rightarrow> call_context \<Rightarrow> 'v api_return outcome \<times> 'v event list" where
  "api_return_flow s apiName rq result ctx =
     (case preApiReturn (flows s) of
        None \<Rightarrow> api_post_flow s apiName rq result ctx
      | Some hook \<Rightarrow>
          with_events [FlowRun PreApiReturn]
            (case ends (hook apiName result ctx) of
               ThrowsSync e \<Rightarrow> (Rejected e, [])
             | Rejects e \<Rightarrow> (Rejected e, [])
             | NeverSettles \<Rightarrow> (Pending, [])
             | Returns u \<Rightarrow>
                 if calls_next (hook apiName result ctx)
                 then api_post_flow s apiName rq result ctx
                 else (Fulfilled (failure ''API return canceled by preApiReturn flow''
                                    ''FLOW_CANCELED'' ''ServerError''), [])))"

definition api_invoke ::
  "'v server \<Rightarrow> string \<Rightarrow> 'v \<Rightarrow> call_context \<Rightarrow> 'v api_return outcome \<times> 'v event list" where
  "api_invoke s apiName rq ctx =
     (case apiHandlers s apiName of
        None \<Rightarrow>
          (Fulfilled (failure (''No handler found for API: '' @ apiName)
                        ''HANDLER_NOT_FOUND'' ''ServerError''), [])
      | Some handler \<Rightarrow>
          with_events [Logged (ApiStarted apiName), ApiHandlerCalled apiName rq]
            (case handler rq ctx of
               ThrowsSync e \<Rightarrow> (Rejected e, [])
             | Rejects e \<Rightarrow> (Rejected e, [])
             | NeverSettles \<Rightarrow> (Pending, [])
             | Returns result \<Rightarrow>
                 (case validateResponse (protocolGenerator s) apiName result of
                    Inl e \<Rightarrow> (Rejected e, [])
                  | Inr valid \<Rightarrow>
                      if \<not> valid
                      then (Fulfilled (failure (''Invalid response data for API: '' @ apiName)
                                         ''INVALID_RESPONSE'' ''ServerError''), [])
                      else api_return_flow s apiName rq result ctx)))"

definition api_pre_flow ::
  "'v server \<Rightarrow> string \<Rightarrow> 'v \<Rightarrow> call_context \<Rightarrow> 'v api_return outcome \<times> 'v event list" where
  "api_pre_flow s apiName rq ctx =
     (case preApiCall (flows s) of
        None \<Rightarrow> api_invoke s apiName rq ctx
      | Some hook \<Rightarrow>
          with_events [FlowRun PreApiCall]
            (case ends (hook apiName rq ctx) of
               ThrowsSync e \<Rightarrow> (Rejected e, [])
             | Rejects e \<Rightarrow> (Rejected e, [])
             | NeverSettles \<Rightarrow> (Pending, [])
             | Returns u \<Rightarrow>
                 if calls_next (hook apiName rq ctx)
                 then api_invoke s apiName rq ctx
                 else (Fulfilled (failure ''API call canceled by preApiCall flow''
                                    ''FLOW_CANCELED'' ''ServerError''), [])))"

definition api_try ::
  "'v server \<Rightarrow> string \<Rightarrow> 'v \<Rightarrow> call_context \<Rightarrow> 'v api_return outcome \<times> 'v event list" where
  "api_try s apiName rq ctx =
     (case validateRequest (protocolGenerator s) apiName rq of
        Inl e \<Rightarrow> (Rejected e, [])
      | Inr valid \<Rightarrow>
          if \<not> valid
          then (Fulfilled (failure (''Invalid request data for API: '' @ apiName)
                             ''INVALID_REQUEST'' ''ClientError''), [])
          else api_pre_flow s apiName rq ctx)"

text \<open>
  The \<^verbatim>\<open>catch\<close> block: it logs, returns the fields of a \<^verbatim>\<open>LightweightError\<close> as they are,
  and otherwise reads \<^verbatim>\<open>error.message || "Internal server error"\<close>. An empty string is
  falsy, so an empty message is replaced like a missing one. On \<^verbatim>\<open>null\<close> and
  \<^verbatim>\<open>undefined\<close> the read of \<^verbatim>\<open>error.message\<close> raises a TypeError inside the
  \<^verbatim>\<open>catch\<close> block, and the promise of the method rejects with it.
\<close>

definition api_catch ::
  "string \<Rightarrow> 'v api_return outcome \<times> 'v event list \<Rightarrow> 'v api_return outcome \<times> 'v event list" where
  "api_catch apiName r =
     (case fst r of
        Rejected error \<Rightarrow>
          (case error of
             LightweightError m c t \<Rightarrow> Fulfilled (failure m c t)
           | ErrorValue m c t \<Rightarrow>
               Fulfilled (failure
                 (case m of
                    None \<Rightarrow> ''Internal server error''
                  | Some text \<Rightarrow> if text = [] then ''Internal server error'' else text)
                 ''INTERNAL_ERROR'' ''ServerError'')
           | Nullish \<Rightarrow> Rejected TypeError,
           snd r @ [Logged (ApiFailed apiName error)])
      | Fulfilled envelope \<Rightarrow> r
      | Pending \<Rightarrow> r)"

definition handleApiCall ::
  "'v server \<Rightarrow> string \<Rightarrow> 'v \<Rightarrow> call_context \<Rightarrow> 'v api_return outcome \<times> 'v event list" where
  "handleApiCall s apiName rq ctx = api_catch apiName (api_try s apiName rq ctx)"


subsection \<open>handleMsgCall\<close>

text \<open>
  \<^verbatim>\<open>handlers.map(handler => Promise.resolve(handler(msg, context)).catch(...))\<close> calls the
  handlers one after the other, in list order. Each call that returns (a value or a
  promise) gives one promise of the array; a call that throws before returning ends the
  \<^verbatim>\<open>map\<close> at once, with the handlers behind it never called. The result is the thrown value
  if the \<^verbatim>\<open>map\<close> was cut short, the completions of the handlers that did return, and the
  trace of the calls.
\<close>

fun map_handlers ::
  "string \<Rightarrow> 'v msg_handler list \<Rightarrow> nat \<Rightarrow> 'v \<Rightarrow> call_context \<Rightarrow>
     thrown option \<times> unit completion list \<times> 'v event list" where
  "map_handlers msgName [] i msg ctx = (None, [], [])"
| "map_handlers msgName (handler # handlers) i msg ctx =
     (case handler msg ctx of
        ThrowsSync e \<Rightarrow> (Some e, [], [MsgHandlerCalled msgName i msg])
      | c \<Rightarrow>
          (case map_handlers msgName handlers (Suc i) msg ctx of
             (stopped, cs, t) \<Rightarrow> (stopped, c # cs, MsgHandlerCalled msgName i msg # t)))"

text \<open>The \<^verbatim>\<open>.catch\<close> attached to each promise logs its rejection and settles it.\<close>

fun rejection_logs :: "string \<Rightarrow> unit completion list \<Rightarrow> 'v event list" where
  "rejection_logs msgName [] = []"
| "rejection_logs msgName (Rejects e # cs) = Logged (MsgHandlerFailed msgName e) # rejection_logs msgName cs"
| "rejection_logs msgName (c # cs) = rejection_logs msgName cs"

text \<open>
  The body of the \<^verbatim>\<open>try\<close> block of \<^verbatim>\<open>handleMsgCall\<close>. It yields how the block ends, the
  trace up to there, and the lines logged later by the \<^verbatim>\<open>.catch\<close> callbacks of the
  handler promises. \<^verbatim>\<open>await Promise.all(...)\<close> resumes when every promise of the array has
  settled, and never if one of them never settles.
\<close>

definition msg_fan_out ::
  "string \<Rightarrow> 'v msg_handler list \<Rightarrow> 'v \<Rightarrow> call_context \<Rightarrow>
     unit outcome \<times> 'v event list \<times> 'v event list" where
  "msg_fan_out msgName handlers msg ctx =
     (case map_handlers msgName handlers 0 msg ctx of
        (Some e, cs, t) \<Rightarrow> (Rejected e, t, rejection_logs msgName cs)
      | (None, cs, t) \<Rightarrow>
          (if NeverSettles \<in> set cs then Pending else Fulfilled (), t, rejection_logs msgName cs))"

definition msg_invoke ::
  "'v server \<Rightarrow> string \<Rightarrow> 'v \<Rightarrow> call_context \<Rightarrow> unit outcome \<times> 'v event list \<times> 'v event list" where
  "msg_invoke s msgName msg ctx =
     (case msgHandlers s msgName of
        None \<Rightarrow> (Fulfilled (), [Logged (MsgNoHandler msgName)], [])
      | Some handlers \<Rightarrow>
          if handlers = [] then (Fulfilled (), [Logged (MsgNoHandler msgName)], [])
          else (case msg_fan_out msgName handlers msg ctx of
                  (r, t, late) \<Rightarrow> (r, Logged (MsgStarted msgName) # t, late)))"

definition msg_pre_flow ::
  "'v server \<Rightarrow> string \<Rightarrow> 'v \<Rightarrow> call_context \<Rightarrow> unit outcome \<times> 'v event list \<times> 'v event list" where
  "msg_pre_flow s msgName msg ctx =
     (case preMsgReceive (flows s) of
        None \<Rightarrow> msg_invoke s msgName msg ctx
      | Some hook \<Rightarrow>
          (case ends (hook msgName msg ctx) of
             ThrowsSync e \<Rightarrow> (Rejected e, [FlowRun PreMsgReceive], [])
           | Rejects e \<Rightarrow> (Rejected e, [FlowRun PreMsgReceive], [])
           | NeverSettles \<Rightarrow> (Pending, [FlowRun PreMsgReceive], [])
           | Returns u \<Rightarrow>
               if calls_next (hook msgName msg ctx)
               then (case msg_invoke s msgName msg ctx of
                       (r, t, late) \<Rightarrow> (r, FlowRun PreMsgReceive # t, late))
               else (Fulfilled (), [FlowRun PreMsgReceive, Logged MsgCanceled], [])))"

definition msg_try ::
  "(string \<Rightarrow> 'v \<Rightarrow> thrown + bool) \<Rightarrow> 'v server \<Rightarrow> string \<Rightarrow> 'v \<Rightarrow> call_context \<Rightarrow>
     unit outcome \<times> 'v event list \<times> 'v event list" where
  "msg_try call_member s msgName msg ctx =
     (case validateMessage call_member (protocolGenerator s) msgName msg of
        Inl e \<Rightarrow> (Rejected e, [], [])
      | Inr valid \<Rightarrow>
          if \<not> valid then (Fulfilled (), [Logged (MsgInvalid msgName)], [])
          else msg_pre_flow s msgName msg ctx)"

text \<open>The \<^verbatim>\<open>catch\<close> block only logs, so the promise of \<^verbatim>\<open>handleMsgCall\<close> fulfils whenever
  the \<^verbatim>\<open>try\<close> block ends.\<close>

definition handleMsgCall ::
  "(string \<Rightarrow> 'v \<Rightarrow> thrown + bool) \<Rightarrow> 'v server \<Rightarrow> string \<Rightarrow> 'v \<Rightarrow> call_context \<Rightarrow>
     unit outcome \<times> 'v event list" where
  "handleMsgCall call_member s msgName msg ctx =
     (case msg_try call_member s msgName msg ctx of
        (Rejected error, t, late) \<Rightarrow> (Fulfilled (), t @ [Logged (MsgFailed msgName error)] @ late)
      | (Fulfilled u, t, late) \<Rightarrow> (Fulfilled (), t @ late)
      | (Pending, t, late) \<Rightarrow> (Pending, t @ late))"

fun is_MsgHandlerCalled :: "'v event \<Rightarrow> bool" where
  "is_MsgHandlerCalled (MsgHandlerCalled n i m) = True"
| "is_MsgHandlerCalled e = False"

definition msg_handler_calls :: "'v event list \<Rightarrow> nat" where
  "msg_handler_calls t = length (filter is_MsgHandlerCalled t)"

text \<open>The calls of the first \<open>n\<close> handlers of a list, numbered from \<open>i\<close>.\<close>

fun calls_from :: "string \<Rightarrow> nat \<Rightarrow> nat \<Rightarrow> 'v \<Rightarrow> 'v event list" where
  "calls_from msgName i 0 msg = []"
| "calls_from msgName i (Suc n) msg =
     MsgHandlerCalled msgName i msg # calls_from msgName (Suc i) n msg"

subsection \<open>Reaching the handler\<close>

text \<open>The pre-call stage lets a call through when no hook is bound, or when the bound hook
  invokes its continuation and returns.\<close>

definition passes_pre_flow :: "'v server \<Rightarrow> string \<Rightarrow> 'v \<Rightarrow> call_context \<Rightarrow> bool" where
  "passes_pre_flow s apiName rq ctx =
     (case preApiCall (flows s) of
        None \<Rightarrow> True
      | Some hook \<Rightarrow> ends (hook apiName rq ctx) = Returns () \<and> calls_next (hook apiName rq ctx))"

section \<open>Servers to run the dispatcher on\<close>

text \<open>Payloads are natural numbers in these servers; the names are those of the examples
  that come with the server.\<close>

definition ctx0 :: call_context where
  "ctx0 = \<lparr> connId = ''http_1'', clientIp = ''127.0.0.1'', startTime = 0 \<rparr>"

definition echo_server :: "nat server" where
  "echo_server = implementApi (new_server default_options) ''test/echo'' (\<lambda>q c. Returns q)"

definition declining_hook :: "string \<Rightarrow> nat \<Rightarrow> call_context \<Rightarrow> middleware_run" where
  "declining_hook n q c = \<lparr> calls_next = False, ends = Returns () \<rparr>"

definition continuing_hook :: "string \<Rightarrow> nat \<Rightarrow> call_context \<Rightarrow> middleware_run" where
  "continuing_hook n q c = \<lparr> calls_next = True, ends = Returns () \<rparr>"

text \<open>A server whose only request validator comes from the \<^verbatim>\<open>customValidators\<close> option and
  accepts positive numbers.\<close>

definition login_options :: "nat protocol_options" where
  "login_options =
     default_options\<lparr> opt_customValidators :=
       Some [''user/login'' \<mapsto> \<lparr> req = Some (\<lambda>d. Inr (0 < d)), res = None \<rparr>] \<rparr>"

definition login_server :: "nat server" where
  "login_server = implementApi (new_server login_options) ''user/login'' (\<lambda>q c. Returns (q + 1))"

text \<open>A server whose handler is an \<^verbatim>\<open>async\<close> function that throws the given value.\<close>

definition throwing_server :: "thrown \<Rightarrow> nat server" where
  "throwing_server e = implementApi (new_server default_options) ''test/error'' (\<lambda>q c. Rejects e)"

text \<open>A post-call hook written as a plain function that throws: \<^verbatim>\<open>() => { throw new Error("audit failed") }\<close>.\<close>

definition sync_throwing_post_hook :: "string \<Rightarrow> nat \<Rightarrow> nat \<Rightarrow> call_context \<Rightarrow> middleware_run" where
  "sync_throwing_post_hook n q r c =
     \<lparr> calls_next = False, ends = ThrowsSync (ErrorValue (Some ''audit failed'') None None) \<rparr>"

text \<open>Three handlers listening to one message name.\<close>

definition chat_server :: "nat msg_handler \<Rightarrow> nat msg_handler \<Rightarrow> nat msg_handler \<Rightarrow> nat server" where
  "chat_server h0 h1 h2 =
     listenMsg (listenMsg (listenMsg (new_server default_options) ''chat/message'' h0)
       ''chat/message'' h1) ''chat/message'' h2"

definition reject_all :: "nat validator" where
  "reject_all d = Inr False"

text \<open>Options whose custom validators for the name \<^verbatim>\<open>chat/message\<close> reject everything, in
  both slots.\<close>

definition chat_options :: "nat protocol_options" where
  "chat_options =
     default_options\<lparr> opt_customValidators :=
       Some [''chat/message'' \<mapsto> \<lparr> req = Some reject_all, res = Some reject_all \<rparr>] \<rparr>"

text \<open>A runtime in which every call of an inherited member as a bare function raises a
  TypeError.\<close>

definition no_member_call :: "string \<Rightarrow> nat \<Rightarrow> thrown + bool" where
  "no_member_call m d = Inl TypeError"
section \<open>Sequences of registrations and the shape of the tables\<close>

datatype 'v registration =
    RegisterApi string "'v direction_validators option"
  | RegisterMsg string "'v validator option"

fun register :: "'v generator \<Rightarrow> 'v registration \<Rightarrow> 'v generator" where
  "register g (RegisterApi n v) = snd (registerApi g n v)"
| "register g (RegisterMsg n v) = snd (registerMsg g n v)"

text \<open>
  What the tables look like between registrations: every stored id lies below the counter
  and the reverse table of its namespace maps it back to its name, and no id is stored in
  both namespaces.
\<close>

definition registry_ok :: "'v generator \<Rightarrow> bool" where
  "registry_ok g \<longleftrightarrow>
     (\<forall>n i. apiName2Id g n = Some i \<longrightarrow> i < nextId g \<and> id2ApiName g i = Some n) \<and>
     (\<forall>n i. msgName2Id g n = Some i \<longrightarrow> i < nextId g \<and> id2MsgName g i = Some n) \<and>
     (\<forall>n m i. apiName2Id g n = Some i \<longrightarrow> msgName2Id g m \<noteq> Some i)"


section \<open>Unfolding the definitions\<close>

lemmas fixture_defs = echo_server_def login_server_def login_options_def throwing_server_def
  chat_server_def implementApi_def listenMsg_def new_server_def new_generator_def
  default_options_def registerApi_def registerMsg_def get_property_def
  object_prototype_members_def setFlows_def no_flows_def ctx0_def declining_hook_def
  continuing_hook_def sync_throwing_post_hook_def Let_def

lemmas validate_defs = validateRequest_def validateResponse_def registered_validator_def
  custom_validator_def slot_def

lemmas api_defs = handleApiCall_def api_try_def api_pre_flow_def api_invoke_def
  api_return_flow_def api_post_flow_def api_catch_def with_events_def failure_def
  api_handler_calls_def

lemmas msg_defs = handleMsgCall_def msg_try_def msg_pre_flow_def msg_invoke_def
  msg_fan_out_def validateMessage_def

section \<open>The validation gate\<close>

text \<open>
  C3. When the request validator of the registry returns false for the request,
  \<^verbatim>\<open>handleApiCall\<close> fulfils with the failure envelope of code \<^verbatim>\<open>INVALID_REQUEST\<close> and type
  \<^verbatim>\<open>ClientError\<close>, and the trace of the call is empty: the handler is not invoked (its
  invocation count is zero) and the pre-call hook does not run.
\<close>

theorem validation_gate:
  assumes "validateRequest (protocolGenerator s) apiName rq = Inr False"
  shows "handleApiCall s apiName rq ctx =
           (Fulfilled (NotSucc \<lparr> message = ''Invalid request data for API: '' @ apiName,
                                  code = ''INVALID_REQUEST'', type = ''ClientError'' \<rparr>), [])
         \<and> api_handler_calls (snd (handleApiCall s apiName rq ctx)) = 0
         \<and> FlowRun PreApiCall \<notin> set (snd (handleApiCall s apiName rq ctx))"
  using assms
  by (simp add: handleApiCall_def api_try_def api_catch_def failure_def api_handler_calls_def)

theorem validation_gate_witness:
  "validateRequest (protocolGenerator login_server) ''user/login'' 0 = Inr False
   \<and> handleApiCall login_server ''user/login'' 0 ctx0 =
       (Fulfilled (NotSucc \<lparr> message = ''Invalid request data for API: user/login'',
                              code = ''INVALID_REQUEST'', type = ''ClientError'' \<rparr>), [])
   \<and> api_handler_calls (snd (handleApiCall login_server ''user/login'' 0 ctx0)) = 0"
proof -
  have h: "validateRequest (protocolGenerator login_server) ''user/login'' 0 = Inr False"
    by (simp add: fixture_defs validate_defs)
  from validation_gate [where s = login_server and apiName = "''user/login''" and rq = 0
      and ctx = ctx0, OF h] h
  show ?thesis by (simp add: api_handler_calls_def)
qed

section \<open>The pre-call hook\<close>

text \<open>
  C4. Let the request pass validation and let a \<^verbatim>\<open>preApiCall\<close> hook be bound that returns.
  If it returned without invoking its continuation, \<^verbatim>\<open>handleApiCall\<close> fulfils with the
  failure envelope of code \<^verbatim>\<open>FLOW_CANCELED\<close> and type \<^verbatim>\<open>ServerError\<close> and the handler is
  not invoked. If it did invoke the continuation, the call goes on with the handler lookup:
  the result is that of the lookup stage under the \<^verbatim>\<open>catch\<close> block, which is
  \<^verbatim>\<open>HANDLER_NOT_FOUND\<close> when no handler is bound and an invocation of the handler with the
  request when one is.
\<close>

theorem pre_call_rejection:
  assumes "validateRequest (protocolGenerator s) apiName rq = Inr True"
    and "preApiCall (flows s) = Some hook"
    and "ends (hook apiName rq ctx) = Returns ()"
  shows "(\<not> calls_next (hook apiName rq ctx) \<longrightarrow>
            handleApiCall s apiName rq ctx =
              (Fulfilled (NotSucc \<lparr> message = ''API call canceled by preApiCall flow'',
                                     code = ''FLOW_CANCELED'', type = ''ServerError'' \<rparr>),
               [FlowRun PreApiCall])
            \<and> api_handler_calls (snd (handleApiCall s apiName rq ctx)) = 0)
       \<and> (calls_next (hook apiName rq ctx) \<longrightarrow>
            handleApiCall s apiName rq ctx =
              api_catch apiName (with_events [FlowRun PreApiCall] (api_invoke s apiName rq ctx))
            \<and> (apiHandlers s apiName = None \<longrightarrow>
                 fst (handleApiCall s apiName rq ctx) =
                   Fulfilled (NotSucc \<lparr> message = ''No handler found for API: '' @ apiName,
                                         code = ''HANDLER_NOT_FOUND'', type = ''ServerError'' \<rparr>))
            \<and> (apiHandlers s apiName \<noteq> None \<longrightarrow>
                 ApiHandlerCalled apiName rq \<in> set (snd (handleApiCall s apiName rq ctx))))"
proof (intro conjI impI)
  assume n: "\<not> calls_next (hook apiName rq ctx)"
  from assms n show "handleApiCall s apiName rq ctx =
      (Fulfilled (NotSucc \<lparr> message = ''API call canceled by preApiCall flow'',
                             code = ''FLOW_CANCELED'', type = ''ServerError'' \<rparr>),
       [FlowRun PreApiCall])"
    by (simp add: handleApiCall_def api_try_def api_pre_flow_def api_catch_def
        with_events_def failure_def)
  then show "api_handler_calls (snd (handleApiCall s apiName rq ctx)) = 0"
    by (simp add: api_handler_calls_def)
next
  assume c: "calls_next (hook apiName rq ctx)"
  from assms c show eq: "handleApiCall s apiName rq ctx =
      api_catch apiName (with_events [FlowRun PreApiCall] (api_invoke s apiName rq ctx))"
    by (simp add: handleApiCall_def api_try_def api_pre_flow_def)
  {
    assume "apiHandlers s apiName = None"
    then show "fst (handleApiCall s apiName rq ctx) =
        Fulfilled (NotSucc \<lparr> message = ''No handler found for API: '' @ apiName,
                              code = ''HANDLER_NOT_FOUND'', type = ''ServerError'' \<rparr>)"
      by (simp add: eq api_invoke_def api_catch_def with_events_def failure_def)
  }
  {
    assume "apiHandlers s apiName \<noteq> None"
    then obtain handler where h: "apiHandlers s apiName = Some handler" by auto
    have "ApiHandlerCalled apiName rq \<in> set (snd (api_invoke s apiName rq ctx))"
      by (simp add: api_invoke_def h with_events_def)
    then show "ApiHandlerCalled apiName rq \<in> set (snd (handleApiCall s apiName rq ctx))"
      by (auto simp: eq api_catch_def with_events_def split: outcome.splits)
  }
qed

theorem pre_call_rejection_witness:
  "handleApiCall (setFlows echo_server (no_flows\<lparr> preApiCall := Some declining_hook \<rparr>))
     ''test/echo'' 5 ctx0 =
     (Fulfilled (NotSucc \<lparr> message = ''API call canceled by preApiCall flow'',
                            code = ''FLOW_CANCELED'', type = ''ServerError'' \<rparr>),
      [FlowRun PreApiCall])
   \<and> ApiHandlerCalled ''test/echo'' 5 \<in>
       set (snd (handleApiCall
                  (setFlows echo_server (no_flows\<lparr> preApiCall := Some continuing_hook \<rparr>))
                  ''test/echo'' 5 ctx0))
   \<and> fst (handleApiCall
            (setFlows echo_server (no_flows\<lparr> preApiCall := Some continuing_hook \<rparr>))
            ''test/unknown'' 5 ctx0) =
       Fulfilled (NotSucc \<lparr> message = ''No handler found for API: test/unknown'',
                             code = ''HANDLER_NOT_FOUND'', type = ''ServerError'' \<rparr>)"
proof -
  let ?d = "setFlows echo_server (no_flows\<lparr> preApiCall := Some declining_hook \<rparr>)"
  let ?c = "setFlows echo_server (no_flows\<lparr> preApiCall := Some continuing_hook \<rparr>)"
  have d1: "validateRequest (protocolGenerator ?d) ''test/echo'' 5 = Inr True"
    by (simp add: fixture_defs validate_defs)
  have d2: "preApiCall (flows ?d) = Some declining_hook"
    by (simp add: fixture_defs)
  have d3: "ends (declining_hook ''test/echo'' 5 ctx0) = Returns ()"
    by (simp add: declining_hook_def)
  have d4: "\<not> calls_next (declining_hook ''test/echo'' 5 ctx0)"
    by (simp add: declining_hook_def)
  have c1: "validateRequest (protocolGenerator ?c) ''test/echo'' 5 = Inr True"
    by (simp add: fixture_defs validate_defs)
  have c2: "preApiCall (flows ?c) = Some continuing_hook"
    by (simp add: fixture_defs)
  have c3: "ends (continuing_hook ''test/echo'' 5 ctx0) = Returns ()"
    by (simp add: continuing_hook_def)
  have c4: "calls_next (continuing_hook ''test/echo'' 5 ctx0)"
    by (simp add: continuing_hook_def)
  have c5: "apiHandlers ?c ''test/echo'' \<noteq> None"
    by (simp add: fixture_defs)
  have u1: "validateRequest (protocolGenerator ?c) ''test/unknown'' 5 = Inr True"
    by (simp add: fixture_defs validate_defs)
  have u3: "ends (continuing_hook ''test/unknown'' 5 ctx0) = Returns ()"
    by (simp add: continuing_hook_def)
  have u4: "calls_next (continuing_hook ''test/unknown'' 5 ctx0)"
    by (simp add: continuing_hook_def)
  have u5: "apiHandlers ?c ''test/unknown'' = None"
    by (simp add: fixture_defs)
  have declined: "handleApiCall ?d ''test/echo'' 5 ctx0 =
      (Fulfilled (NotSucc \<lparr> message = ''API call canceled by preApiCall flow'',
                             code = ''FLOW_CANCELED'', type = ''ServerError'' \<rparr>),
       [FlowRun PreApiCall])"
    using pre_call_rejection [where s = ?d and apiName = "''test/echo''" and rq = 5
        and hook = declining_hook and ctx = ctx0, OF d1 d2 d3] d4
    by blast
  have invoked: "ApiHandlerCalled ''test/echo'' 5 \<in> set (snd (handleApiCall ?c ''test/echo'' 5 ctx0))"
    using pre_call_rejection [where s = ?c and apiName = "''test/echo''" and rq = 5
        and hook = continuing_hook and ctx = ctx0, OF c1 c2 c3] c4 c5
    by blast
  have unknown: "fst (handleApiCall ?c ''test/unknown'' 5 ctx0) =
      Fulfilled (NotSucc \<lparr> message = ''No handler found for API: '' @ ''test/unknown'',
                            code = ''HANDLER_NOT_FOUND'', type = ''ServerError'' \<rparr>)"
    using pre_call_rejection [where s = ?c and apiName = "''test/unknown''" and rq = 5
        and hook = continuing_hook and ctx = ctx0, OF u1 c2 u3] u4 u5
    by blast
  from declined invoked unknown show ?thesis by simp
qed

section \<open>The pre-return hook\<close>

text \<open>
  C10. Let a call reach its handler, let the handler return a result that passes response
  validation, and let a \<^verbatim>\<open>preApiReturn\<close> hook be bound that returns without invoking its
  continuation. Then \<^verbatim>\<open>handleApiCall\<close> fulfils with the failure envelope of code
  \<^verbatim>\<open>FLOW_CANCELED\<close> and type \<^verbatim>\<open>ServerError\<close>, although the handler was invoked (once) and
  had produced its result; the post-call hook is not run.
\<close>

theorem pre_return_rejection:
  assumes "validateRequest (protocolGenerator s) apiName rq = Inr True"
    and "passes_pre_flow s apiName rq ctx"
    and "apiHandlers s apiName = Some handler"
    and "handler rq ctx = Returns result"
    and "validateResponse (protocolGenerator s) apiName result = Inr True"
    and "preApiReturn (flows s) = Some hook"
    and "ends (hook apiName result ctx) = Returns ()"
    and "\<not> calls_next (hook apiName result ctx)"
  shows "fst (handleApiCall s apiName rq ctx) =
           Fulfilled (NotSucc \<lparr> message = ''API return canceled by preApiReturn flow'',
                                 code = ''FLOW_CANCELED'', type = ''ServerError'' \<rparr>)
         \<and> api_handler_calls (snd (handleApiCall s apiName rq ctx)) = 1
         \<and> ApiHandlerCalled apiName rq \<in> set (snd (handleApiCall s apiName rq ctx))
         \<and> FlowRun PostApiCall \<notin> set (snd (handleApiCall s apiName rq ctx))"
proof -
  have inv: "api_invoke s apiName rq ctx =
      (Fulfilled (failure ''API return canceled by preApiReturn flow'' ''FLOW_CANCELED''
                    ''ServerError''),
       [Logged (ApiStarted apiName), ApiHandlerCalled apiName rq, FlowRun PreApiReturn])"
    using assms(3-8) by (simp add: api_invoke_def api_return_flow_def with_events_def)
  show ?thesis
  proof (cases "preApiCall (flows s)")
    case None
    then show ?thesis using assms(1) inv
      by (simp add: handleApiCall_def api_try_def api_pre_flow_def api_catch_def failure_def
          api_handler_calls_def)
  next
    case (Some pre)
    then show ?thesis using assms(1,2) inv
      by (simp add: handleApiCall_def api_try_def api_pre_flow_def api_catch_def failure_def
          api_handler_calls_def passes_pre_flow_def with_events_def)
  qed
qed

theorem pre_return_rejection_witness:
  "fst (handleApiCall (setFlows echo_server (no_flows\<lparr> preApiReturn := Some declining_hook \<rparr>))
          ''test/echo'' 5 ctx0) =
     Fulfilled (NotSucc \<lparr> message = ''API return canceled by preApiReturn flow'',
                           code = ''FLOW_CANCELED'', type = ''ServerError'' \<rparr>)
   \<and> api_handler_calls
        (snd (handleApiCall
               (setFlows echo_server (no_flows\<lparr> preApiReturn := Some declining_hook \<rparr>))
               ''test/echo'' 5 ctx0)) = 1"
proof -
  let ?s = "setFlows echo_server (no_flows\<lparr> preApiReturn := Some declining_hook \<rparr>)"
  have h1: "validateRequest (protocolGenerator ?s) ''test/echo'' 5 = Inr True"
    by (simp add: fixture_defs validate_defs)
  have h2: "passes_pre_flow ?s ''test/echo'' 5 ctx0"
    by (simp add: fixture_defs passes_pre_flow_def)
  have h3: "apiHandlers ?s ''test/echo'' = Some (\<lambda>q c. Returns q)"
    by (simp add: fixture_defs)
  have h4: "(\<lambda>q c. Returns q) (5::nat) ctx0 = Returns (5::nat)"
    by simp
  have h5: "validateResponse (protocolGenerator ?s) ''test/echo'' 5 = Inr True"
    by (simp add: fixture_defs validate_defs)
  have h6: "preApiReturn (flows ?s) = Some declining_hook"
    by (simp add: fixture_defs)
  have h7: "ends (declining_hook ''test/echo'' 5 ctx0) = Returns ()"
    by (simp add: declining_hook_def)
  have h8: "\<not> calls_next (declining_hook ''test/echo'' 5 ctx0)"
    by (simp add: declining_hook_def)
  from pre_return_rejection [where s = ?s and apiName = "''test/echo''" and rq = 5
        and ctx = ctx0 and handler = "\<lambda>q c. Returns q" and result = 5
        and hook = declining_hook, OF h1 h2 h3 h4 h5 h6 h7 h8]
  show ?thesis by simp
qed

section \<open>What a throwing handler yields\<close>

text \<open>
  C2, as the code has it. Let a call reach its handler and let the handler throw the value
  \<open>e\<close> (before returning, or through the promise it returned). If \<open>e\<close> is a
  \<^verbatim>\<open>LightweightError\<close>, the call fulfils with the failure envelope that carries the message,
  code and type of \<open>e\<close> unchanged. If \<open>e\<close> is any other value with a non-empty message, the
  envelope has that message, code \<^verbatim>\<open>INTERNAL_ERROR\<close> and type \<^verbatim>\<open>ServerError\<close>, whatever
  code and type properties \<open>e\<close> has. If such a value has no message or an empty one, the
  message is \<^verbatim>\<open>Internal server error\<close>. In particular \<^verbatim>\<open>Error("boom")\<close> gives the message
  \<^verbatim>\<open>boom\<close> with \<^verbatim>\<open>INTERNAL_ERROR\<close> and \<^verbatim>\<open>ServerError\<close>. Nothing is said here of a
  handler that throws \<^verbatim>\<open>null\<close> or \<^verbatim>\<open>undefined\<close>.
\<close>

theorem handler_error_envelope:
  assumes "validateRequest (protocolGenerator s) apiName rq = Inr True"
    and "passes_pre_flow s apiName rq ctx"
    and "apiHandlers s apiName = Some handler"
    and "handler rq ctx = ThrowsSync e \<or> handler rq ctx = Rejects e"
  shows "(\<forall>m c t. e = LightweightError m c t \<longrightarrow>
            fst (handleApiCall s apiName rq ctx) =
              Fulfilled (NotSucc \<lparr> message = m, code = c, type = t \<rparr>))
       \<and> (\<forall>m c t. e = ErrorValue (Some m) c t \<longrightarrow> m \<noteq> [] \<longrightarrow>
            fst (handleApiCall s apiName rq ctx) =
              Fulfilled (NotSucc \<lparr> message = m, code = ''INTERNAL_ERROR'',
                                    type = ''ServerError'' \<rparr>))
       \<and> (\<forall>m c t. e = ErrorValue m c t \<longrightarrow> (m = None \<or> m = Some []) \<longrightarrow>
            fst (handleApiCall s apiName rq ctx) =
              Fulfilled (NotSucc \<lparr> message = ''Internal server error'',
                                    code = ''INTERNAL_ERROR'', type = ''ServerError'' \<rparr>))
       \<and> (e = ErrorValue (Some ''boom'') None None \<longrightarrow>
            fst (handleApiCall s apiName rq ctx) =
              Fulfilled (NotSucc \<lparr> message = ''boom'', code = ''INTERNAL_ERROR'',
                                    type = ''ServerError'' \<rparr>))"
proof -
  have inv: "api_invoke s apiName rq ctx =
      (Rejected e, [Logged (ApiStarted apiName), ApiHandlerCalled apiName rq])"
    using assms(3,4) by (auto simp: api_invoke_def with_events_def)
  have thrown_in_try: "fst (api_try s apiName rq ctx) = Rejected e"
  proof (cases "preApiCall (flows s)")
    case None
    then show ?thesis using assms(1) inv by (simp add: api_try_def api_pre_flow_def)
  next
    case (Some pre)
    then show ?thesis using assms(1,2) inv
      by (simp add: api_try_def api_pre_flow_def passes_pre_flow_def with_events_def)
  qed
  show ?thesis
    by (cases e) (auto simp: handleApiCall_def api_catch_def thrown_in_try failure_def)
qed

theorem handler_error_envelope_witness:
  "fst (handleApiCall (throwing_server (ErrorValue (Some ''boom'') None None))
          ''test/error'' 0 ctx0) =
     Fulfilled (NotSucc \<lparr> message = ''boom'', code = ''INTERNAL_ERROR'', type = ''ServerError'' \<rparr>)
   \<and> fst (handleApiCall
            (throwing_server (LightweightError ''no such user'' ''USER_NOT_FOUND'' ''ApiError''))
            ''test/error'' 0 ctx0) =
     Fulfilled (NotSucc \<lparr> message = ''no such user'', code = ''USER_NOT_FOUND'',
                           type = ''ApiError'' \<rparr>)
   \<and> fst (handleApiCall (throwing_server (ErrorValue None None None)) ''test/error'' 0 ctx0) =
     Fulfilled (NotSucc \<lparr> message = ''Internal server error'', code = ''INTERNAL_ERROR'',
                           type = ''ServerError'' \<rparr>)"
proof -
  let ?b = "throwing_server (ErrorValue (Some ''boom'') None None)"
  let ?l = "throwing_server (LightweightError ''no such user'' ''USER_NOT_FOUND'' ''ApiError'')"
  have b1: "validateRequest (protocolGenerator ?b) ''test/error'' 0 = Inr True"
    by (simp add: fixture_defs validate_defs)
  have b2: "passes_pre_flow ?b ''test/error'' 0 ctx0"
    by (simp add: fixture_defs passes_pre_flow_def)
  have b3: "apiHandlers ?b ''test/error'' =
      Some (\<lambda>q c. Rejects (ErrorValue (Some ''boom'') None None))"
    by (simp add: fixture_defs)
  have b4: "(\<lambda>q c. Rejects (ErrorValue (Some ''boom'') None None)) (0::nat) ctx0
              = ThrowsSync (ErrorValue (Some ''boom'') None None)
          \<or> (\<lambda>q c. Rejects (ErrorValue (Some ''boom'') None None)) (0::nat) ctx0
              = Rejects (ErrorValue (Some ''boom'') None None)"
    by simp
  have l1: "validateRequest (protocolGenerator ?l) ''test/error'' 0 = Inr True"
    by (simp add: fixture_defs validate_defs)
  have l2: "passes_pre_flow ?l ''test/error'' 0 ctx0"
    by (simp add: fixture_defs passes_pre_flow_def)
  have l3: "apiHandlers ?l ''test/error'' =
      Some (\<lambda>q c. Rejects (LightweightError ''no such user'' ''USER_NOT_FOUND'' ''ApiError''))"
    by (simp add: fixture_defs)
  have l4: "(\<lambda>q c. Rejects (LightweightError ''no such user'' ''USER_NOT_FOUND'' ''ApiError''))
                (0::nat) ctx0
              = ThrowsSync (LightweightError ''no such user'' ''USER_NOT_FOUND'' ''ApiError'')
          \<or> (\<lambda>q c. Rejects (LightweightError ''no such user'' ''USER_NOT_FOUND'' ''ApiError''))
                (0::nat) ctx0
              = Rejects (LightweightError ''no such user'' ''USER_NOT_FOUND'' ''ApiError'')"
    by simp
  let ?n = "throwing_server (ErrorValue None None None)"
  have n1: "validateRequest (protocolGenerator ?n) ''test/error'' 0 = Inr True"
    by (simp add: fixture_defs validate_defs)
  have n2: "passes_pre_flow ?n ''test/error'' 0 ctx0"
    by (simp add: fixture_defs passes_pre_flow_def)
  have n3: "apiHandlers ?n ''test/error'' = Some (\<lambda>q c. Rejects (ErrorValue None None None))"
    by (simp add: fixture_defs)
  have n4: "(\<lambda>q c. Rejects (ErrorValue None None None)) (0::nat) ctx0
              = ThrowsSync (ErrorValue None None None)
          \<or> (\<lambda>q c. Rejects (ErrorValue None None None)) (0::nat) ctx0
              = Rejects (ErrorValue None None None)"
    by simp
  from handler_error_envelope [where s = ?n and apiName = "''test/error''" and rq = 0
        and ctx = ctx0 and e = "ErrorValue None None None"
        and handler = "\<lambda>q c. Rejects (ErrorValue None None None)", OF n1 n2 n3 n4]
    handler_error_envelope [where s = ?b and apiName = "''test/error''" and rq = 0
        and ctx = ctx0 and e = "ErrorValue (Some ''boom'') None None"
        and handler = "\<lambda>q c. Rejects (ErrorValue (Some ''boom'') None None)", OF b1 b2 b3 b4]
    handler_error_envelope [where s = ?l and apiName = "''test/error''" and rq = 0
        and ctx = ctx0 and e = "LightweightError ''no such user'' ''USER_NOT_FOUND'' ''ApiError''"
        and handler =
          "\<lambda>q c. Rejects (LightweightError ''no such user'' ''USER_NOT_FOUND'' ''ApiError'')",
        OF l1 l2 l3 l4]
  show ?thesis by simp
qed

text \<open>
  Where the sentence of the specification fails. A handler that throws \<^verbatim>\<open>new Error("")\<close>
  does not get its (empty) message into the envelope; and a thrown object that carries a
  message, a code and a type of its own but is no \<^verbatim>\<open>LightweightError\<close>, here
  \<^verbatim>\<open>{message: "denied", code: "E_AUTH", type: "ApiError"}\<close>, is not passed through.
\<close>

theorem handler_error_envelope_counterexample:
  "fst (handleApiCall (throwing_server (ErrorValue (Some '''') None None)) ''test/error'' 0 ctx0) \<noteq>
     Fulfilled (NotSucc \<lparr> message = '''', code = ''INTERNAL_ERROR'', type = ''ServerError'' \<rparr>)
   \<and> fst (handleApiCall
            (throwing_server (ErrorValue (Some ''denied'') (Some ''E_AUTH'') (Some ''ApiError'')))
            ''test/error'' 0 ctx0) \<noteq>
     Fulfilled (NotSucc \<lparr> message = ''denied'', code = ''E_AUTH'', type = ''ApiError'' \<rparr>)"
  by (simp add: fixture_defs validate_defs api_defs)

section \<open>Exceptions that leave the dispatcher\<close>

text \<open>
  C1 at a handler that throws \<^verbatim>\<open>null\<close> or \<^verbatim>\<open>undefined\<close> (an \<^verbatim>\<open>async\<close> handler doing
  \<^verbatim>\<open>throw undefined\<close>, or one returning \<^verbatim>\<open>Promise.reject()\<close>): the \<^verbatim>\<open>catch\<close> block reads
  \<^verbatim>\<open>error.message\<close>, the read raises a TypeError, and the promise of \<^verbatim>\<open>handleApiCall\<close>
  rejects with it. No envelope is returned.
\<close>

theorem handleApiCall_nullish_throw:
  "fst (handleApiCall (throwing_server Nullish) ''test/error'' 0 ctx0) = Rejected TypeError"
  by (simp add: fixture_defs validate_defs api_defs)

text \<open>This is the only way out: when \<^verbatim>\<open>handleApiCall\<close> rejects, the \<^verbatim>\<open>try\<close> block had
  thrown a nullish value.\<close>

lemma handleApiCall_rejection_cause:
  assumes "fst (handleApiCall s apiName rq ctx) = Rejected e"
  shows "e = TypeError \<and> fst (api_try s apiName rq ctx) = Rejected Nullish"
  using assms
  by (auto simp: handleApiCall_def api_catch_def split: outcome.splits thrown.splits)

text \<open>The call stays pending only while a hook or the handler that it awaits never
  settles.\<close>

lemma handleApiCall_pending_cause:
  assumes "fst (handleApiCall s apiName rq ctx) = Pending"
  shows "(\<exists>hook. preApiCall (flows s) = Some hook \<and> ends (hook apiName rq ctx) = NeverSettles)
       \<or> (\<exists>handler. apiHandlers s apiName = Some handler \<and> handler rq ctx = NeverSettles)
       \<or> (\<exists>hook result. preApiReturn (flows s) = Some hook \<and>
             ends (hook apiName result ctx) = NeverSettles)"
proof -
  have post: "fst (api_post_flow s apiName rq result ctx) \<noteq> Pending" for result
    by (auto simp: api_post_flow_def with_events_def split: option.splits completion.splits)
  have ret: "fst (api_return_flow s apiName rq result ctx) = Pending \<Longrightarrow>
      (\<exists>hook. preApiReturn (flows s) = Some hook \<and> ends (hook apiName result ctx) = NeverSettles)"
    for result
    using post [of result]
    by (auto simp: api_return_flow_def with_events_def split: option.splits completion.splits if_splits)
  have inv: "fst (api_invoke s apiName rq ctx) = Pending \<Longrightarrow>
      (\<exists>handler. apiHandlers s apiName = Some handler \<and> handler rq ctx = NeverSettles)
      \<or> (\<exists>hook result. preApiReturn (flows s) = Some hook \<and>
             ends (hook apiName result ctx) = NeverSettles)"
    using ret
    by (auto simp: api_invoke_def with_events_def
        split: option.splits completion.splits sum.splits if_splits) blast
  have pre: "fst (api_pre_flow s apiName rq ctx) = Pending \<Longrightarrow>
      (\<exists>hook. preApiCall (flows s) = Some hook \<and> ends (hook apiName rq ctx) = NeverSettles)
      \<or> fst (api_invoke s apiName rq ctx) = Pending"
    by (auto simp: api_pre_flow_def with_events_def
        split: option.splits completion.splits if_splits)
  have "fst (api_try s apiName rq ctx) = Pending"
    using assms
    by (auto simp: handleApiCall_def api_catch_def split: outcome.splits thrown.splits)
  then have "fst (api_pre_flow s apiName rq ctx) = Pending"
    by (auto simp: api_try_def split: sum.splits if_splits)
  with pre inv show ?thesis by blast
qed

section \<open>The post-call hook\<close>

text \<open>
  C5 at a post-call hook that is a plain function and throws. The handler has returned 5
  and the completion line is logged, so the envelope to return is the success envelope
  with 5; the hook's exception reaches the \<^verbatim>\<open>catch\<close> block of \<^verbatim>\<open>handleApiCall\<close> and the
  caller gets a failure envelope with the hook's message.
\<close>

theorem postApiCall_sync_throw:
  "handleApiCall (setFlows echo_server (no_flows\<lparr> postApiCall := Some sync_throwing_post_hook \<rparr>))
     ''test/echo'' 5 ctx0 =
     (Fulfilled (NotSucc \<lparr> message = ''audit failed'', code = ''INTERNAL_ERROR'',
                            type = ''ServerError'' \<rparr>),
      [Logged (ApiStarted ''test/echo''), ApiHandlerCalled ''test/echo'' 5,
       Logged (ApiCompleted ''test/echo''), FlowRun PostApiCall,
       Logged (ApiFailed ''test/echo'' (ErrorValue (Some ''audit failed'') None None))])"
  by (simp add: fixture_defs validate_defs api_defs)

text \<open>A post-call hook that does anything else (returns, with or without calling its
  continuation, returns a promise that rejects, or one that never settles) leaves the
  success envelope as it is.\<close>

lemma api_post_flow_detached:
  assumes "\<forall>hook e. postApiCall (flows s) = Some hook \<longrightarrow>
             ends (hook apiName rq result ctx) \<noteq> ThrowsSync e"
  shows "fst (api_post_flow s apiName rq result ctx) = Fulfilled (IsSucc result)"
  using assms
  by (auto simp: api_post_flow_def with_events_def split: option.splits completion.splits)

section \<open>Message fan-out\<close>

text \<open>
  C6 at three handlers bound to one name, of which the first returns a promise that never
  settles, the second is a plain function that throws, and the third would return. The
  third handler is never invoked, and \<^verbatim>\<open>handleMsgCall\<close> fulfils while the promise of the
  first handler is still pending.
\<close>

theorem msg_handler_sync_throw:
  "handleMsgCall no_member_call
     (chat_server (\<lambda>m c. NeverSettles)
                  (\<lambda>m c. ThrowsSync (ErrorValue (Some ''bad'') None None))
                  (\<lambda>m c. Returns ()))
     ''chat/message'' 7 ctx0 =
     (Fulfilled (),
      [Logged (MsgStarted ''chat/message''),
       MsgHandlerCalled ''chat/message'' 0 7,
       MsgHandlerCalled ''chat/message'' 1 7,
       Logged (MsgFailed ''chat/message'' (ErrorValue (Some ''bad'') None None))])"
  by (simp add: msg_defs fixture_defs)

text \<open>When no handler of the list throws before returning, every handler is invoked, in
  order, and the fan-out is pending exactly when some handler never settles.\<close>

lemma map_handlers_no_sync_throw:
  assumes "\<forall>h \<in> set handlers. \<forall>e. h msg ctx \<noteq> ThrowsSync e"
  shows "map_handlers msgName handlers i msg ctx =
           (None, map (\<lambda>h. h msg ctx) handlers, calls_from msgName i (length handlers) msg)"
  using assms
proof (induction handlers arbitrary: i)
  case Nil
  then show ?case by simp
next
  case (Cons h hs)
  then show ?case by (cases "h msg ctx") auto
qed

lemma msg_fan_out_joins_all:
  assumes "\<forall>h \<in> set handlers. \<forall>e. h msg ctx \<noteq> ThrowsSync e"
  shows "fst (msg_fan_out msgName handlers msg ctx) =
           (if \<exists>h \<in> set handlers. h msg ctx = NeverSettles then Pending else Fulfilled ())
         \<and> fst (snd (msg_fan_out msgName handlers msg ctx)) =
             calls_from msgName 0 (length handlers) msg"
proof -
  have "(NeverSettles \<in> set (map (\<lambda>h. h msg ctx) handlers)) =
          (\<exists>h \<in> set handlers. h msg ctx = NeverSettles)"
    by (induction handlers) auto
  then show ?thesis
    by (simp add: msg_fan_out_def map_handlers_no_sync_throw [OF assms])
qed

text \<open>Whatever the handlers do, the promise of \<^verbatim>\<open>handleMsgCall\<close> never rejects.\<close>

lemma handleMsgCall_never_rejects:
  "fst (handleMsgCall call_member s msgName msg ctx) \<noteq> Rejected e"
  by (auto simp: handleMsgCall_def split: prod.splits outcome.splits)

section \<open>Registration\<close>

text \<open>
  C7 at a name that every object literal inherits: on a fresh registry
  \<^verbatim>\<open>registerApi("constructor")\<close> finds \<^verbatim>\<open>apiName2Id["constructor"]\<close> defined (it is the
  inherited member), returns that member instead of a number, assigns no id and leaves
  the counter at 0; \<^verbatim>\<open>getServiceId\<close> gives the member as well, and \<^verbatim>\<open>registerMsg\<close> does
  the same. An ordinary name such as \<^verbatim>\<open>hello\<close> gets the id 0.
\<close>

theorem registerApi_inherited_name:
  "registerApi (new_generator default_options :: nat generator) ''constructor'' None =
     (ProtoMember ''constructor'', new_generator default_options)
   \<and> nextId (snd (registerApi (new_generator default_options :: nat generator)
                    ''constructor'' None)) = 0
   \<and> getServiceId (snd (registerApi (new_generator default_options :: nat generator)
                          ''constructor'' None)) ''constructor'' Api = ProtoMember ''constructor''
   \<and> registerMsg (new_generator default_options :: nat generator) ''constructor'' None =
     (ProtoMember ''constructor'', new_generator default_options)
   \<and> fst (registerApi (new_generator default_options :: nat generator) ''hello'' None) = Value 0"
  by (simp add: registerApi_def registerMsg_def getServiceId_def get_property_def
      object_prototype_members_def new_generator_def default_options_def Let_def)

text \<open>
  For every other name the registry does what is asked of it. The lemmas below show, for
  registries built from the constructor by registrations: a first registration of a name
  that is no inherited member returns the counter, which no name of either namespace
  holds yet, and advances it by one; registering a name again returns the same id and
  changes nothing; two names of one namespace, and any two names of the two namespaces,
  have different ids; and a stored id stays with its name through all later
  registrations.
\<close>


lemma registry_ok_new: "registry_ok (new_generator options)"
  by (simp add: registry_ok_def new_generator_def)

lemma get_property_Undefined: "get_property t n = Undefined \<Longrightarrow> t n = None"
  by (auto simp: get_property_def split: option.splits if_splits)

lemma registerApi_tables:
  assumes "get_property (apiName2Id g) apiName = Undefined"
  shows "apiName2Id (snd (registerApi g apiName v)) = (apiName2Id g)(apiName \<mapsto> nextId g)"
    and "id2ApiName (snd (registerApi g apiName v)) = (id2ApiName g)(nextId g \<mapsto> apiName)"
    and "msgName2Id (snd (registerApi g apiName v)) = msgName2Id g"
    and "id2MsgName (snd (registerApi g apiName v)) = id2MsgName g"
    and "nextId (snd (registerApi g apiName v)) = nextId g + 1"
    and "fst (registerApi g apiName v) = Value (nextId g)"
  using assms by (auto simp: registerApi_def Let_def split: option.splits)

lemma registerApi_known:
  assumes "get_property (apiName2Id g) apiName \<noteq> Undefined"
  shows "registerApi g apiName v = (get_property (apiName2Id g) apiName, g)"
  using assms by (cases "get_property (apiName2Id g) apiName") (simp_all add: registerApi_def)

lemma registerMsg_tables:
  assumes "get_property (msgName2Id g) msgName = Undefined"
  shows "msgName2Id (snd (registerMsg g msgName v)) = (msgName2Id g)(msgName \<mapsto> nextId g)"
    and "id2MsgName (snd (registerMsg g msgName v)) = (id2MsgName g)(nextId g \<mapsto> msgName)"
    and "apiName2Id (snd (registerMsg g msgName v)) = apiName2Id g"
    and "id2ApiName (snd (registerMsg g msgName v)) = id2ApiName g"
    and "nextId (snd (registerMsg g msgName v)) = nextId g + 1"
    and "fst (registerMsg g msgName v) = Value (nextId g)"
  using assms by (auto simp: registerMsg_def Let_def split: option.splits)

lemma registerMsg_known:
  assumes "get_property (msgName2Id g) msgName \<noteq> Undefined"
  shows "registerMsg g msgName v = (get_property (msgName2Id g) msgName, g)"
  using assms by (cases "get_property (msgName2Id g) msgName") (simp_all add: registerMsg_def)

lemma registry_ok_registerApi:
  assumes ok: "registry_ok g"
  shows "registry_ok (snd (registerApi g apiName v))"
proof (cases "get_property (apiName2Id g) apiName = Undefined")
  case False
  then show ?thesis using ok by (simp add: registerApi_known)
next
  case True
  note t = registerApi_tables [OF True, of v]
  have a: "\<And>n i. apiName2Id g n = Some i \<Longrightarrow> i < nextId g \<and> id2ApiName g i = Some n"
    and m: "\<And>n i. msgName2Id g n = Some i \<Longrightarrow> i < nextId g \<and> id2MsgName g i = Some n"
    and d: "\<And>n m i. apiName2Id g n = Some i \<Longrightarrow> msgName2Id g m \<noteq> Some i"
    using ok by (auto simp: registry_ok_def)
  have a': "\<And>n i. ((apiName2Id g)(apiName \<mapsto> nextId g)) n = Some i \<Longrightarrow>
              i < nextId g + 1 \<and> ((id2ApiName g)(nextId g \<mapsto> apiName)) i = Some n"
  proof -
    fix n i assume h: "((apiName2Id g)(apiName \<mapsto> nextId g)) n = Some i"
    show "i < nextId g + 1 \<and> ((id2ApiName g)(nextId g \<mapsto> apiName)) i = Some n"
    proof (cases "n = apiName")
      case True
      with h show ?thesis by simp
    next
      case False
      with h have "apiName2Id g n = Some i" by simp
      from a [OF this] show ?thesis by simp
    qed
  qed
  have m': "\<And>n i. msgName2Id g n = Some i \<Longrightarrow> i < nextId g + 1 \<and> id2MsgName g i = Some n"
    using m by fastforce
  have d': "\<And>n m i. ((apiName2Id g)(apiName \<mapsto> nextId g)) n = Some i \<Longrightarrow> msgName2Id g m \<noteq> Some i"
  proof -
    fix n k i assume h: "((apiName2Id g)(apiName \<mapsto> nextId g)) n = Some i"
    show "msgName2Id g k \<noteq> Some i"
    proof (cases "n = apiName")
      case True
      with h have "i = nextId g" by simp
      with m [of k i] show ?thesis by auto
    next
      case False
      with h have "apiName2Id g n = Some i" by simp
      from d [OF this] show ?thesis .
    qed
  qed
  show ?thesis
    unfolding registry_ok_def t using a' m' d' by blast
qed

lemma registry_ok_registerMsg:
  assumes ok: "registry_ok g"
  shows "registry_ok (snd (registerMsg g msgName v))"
proof (cases "get_property (msgName2Id g) msgName = Undefined")
  case False
  then show ?thesis using ok by (simp add: registerMsg_known)
next
  case True
  note t = registerMsg_tables [OF True, of v]
  have a: "\<And>n i. apiName2Id g n = Some i \<Longrightarrow> i < nextId g \<and> id2ApiName g i = Some n"
    and m: "\<And>n i. msgName2Id g n = Some i \<Longrightarrow> i < nextId g \<and> id2MsgName g i = Some n"
    and d: "\<And>n m i. apiName2Id g n = Some i \<Longrightarrow> msgName2Id g m \<noteq> Some i"
    using ok by (auto simp: registry_ok_def)
  have m': "\<And>n i. ((msgName2Id g)(msgName \<mapsto> nextId g)) n = Some i \<Longrightarrow>
              i < nextId g + 1 \<and> ((id2MsgName g)(nextId g \<mapsto> msgName)) i = Some n"
  proof -
    fix n i assume h: "((msgName2Id g)(msgName \<mapsto> nextId g)) n = Some i"
    show "i < nextId g + 1 \<and> ((id2MsgName g)(nextId g \<mapsto> msgName)) i = Some n"
    proof (cases "n = msgName")
      case True
      with h show ?thesis by simp
    next
      case False
      with h have "msgName2Id g n = Some i" by simp
      from m [OF this] show ?thesis by simp
    qed
  qed
  have a': "\<And>n i. apiName2Id g n = Some i \<Longrightarrow> i < nextId g + 1 \<and> id2ApiName g i = Some n"
    using a by fastforce
  have d': "\<And>n k i. apiName2Id g n = Some i \<Longrightarrow> ((msgName2Id g)(msgName \<mapsto> nextId g)) k \<noteq> Some i"
  proof -
    fix n k i assume h: "apiName2Id g n = Some i"
    show "((msgName2Id g)(msgName \<mapsto> nextId g)) k \<noteq> Some i"
    proof (cases "k = msgName")
      case True
      with a [OF h] show ?thesis by auto
    next
      case False
      with d [OF h] show ?thesis by simp
    qed
  qed
  show ?thesis
    unfolding registry_ok_def t using a' m' d' by blast
qed


lemma get_property_ordinary:
  "name \<notin> set object_prototype_members \<Longrightarrow>
     get_property t name = (case t name of None \<Rightarrow> Undefined | Some v \<Rightarrow> Value v)"
  by (simp add: get_property_def split: option.splits)

lemma registerApi_fresh:
  assumes "registry_ok g" and "apiName \<notin> set object_prototype_members"
    and "apiName2Id g apiName = None"
  shows "fst (registerApi g apiName v) = Value (nextId g)"
    and "nextId (snd (registerApi g apiName v)) = nextId g + 1"
    and "\<forall>n. apiName2Id g n \<noteq> Some (nextId g)"
    and "\<forall>n. msgName2Id g n \<noteq> Some (nextId g)"
proof -
  have u: "get_property (apiName2Id g) apiName = Undefined"
    using assms(2,3) by (simp add: get_property_ordinary)
  show "fst (registerApi g apiName v) = Value (nextId g)"
    and "nextId (snd (registerApi g apiName v)) = nextId g + 1"
    by (rule registerApi_tables [OF u])+
  show "\<forall>n. apiName2Id g n \<noteq> Some (nextId g)" "\<forall>n. msgName2Id g n \<noteq> Some (nextId g)"
    using assms(1) by (fastforce simp: registry_ok_def)+
qed

lemma registerMsg_fresh:
  assumes "registry_ok g" and "msgName \<notin> set object_prototype_members"
    and "msgName2Id g msgName = None"
  shows "fst (registerMsg g msgName v) = Value (nextId g)"
    and "nextId (snd (registerMsg g msgName v)) = nextId g + 1"
    and "\<forall>n. apiName2Id g n \<noteq> Some (nextId g)"
    and "\<forall>n. msgName2Id g n \<noteq> Some (nextId g)"
proof -
  have u: "get_property (msgName2Id g) msgName = Undefined"
    using assms(2,3) by (simp add: get_property_ordinary)
  show "fst (registerMsg g msgName v) = Value (nextId g)"
    and "nextId (snd (registerMsg g msgName v)) = nextId g + 1"
    by (rule registerMsg_tables [OF u])+
  show "\<forall>n. apiName2Id g n \<noteq> Some (nextId g)" "\<forall>n. msgName2Id g n \<noteq> Some (nextId g)"
    using assms(1) by (fastforce simp: registry_ok_def)+
qed

lemma registerApi_again:
  assumes "registerApi g apiName v = (Value i, g')"
  shows "registerApi g' apiName w = (Value i, g')"
proof (cases "get_property (apiName2Id g) apiName = Undefined")
  case True
  from registerApi_tables [OF True, of v] assms
  have "apiName2Id g' apiName = Some i" by auto
  then show ?thesis by (simp add: registerApi_def get_property_def)
next
  case False
  from registerApi_known [OF False, of v] assms
  have "get_property (apiName2Id g) apiName = Value i" and "g' = g" by auto
  then show ?thesis by (simp add: registerApi_def)
qed

lemma registerMsg_again:
  assumes "registerMsg g msgName v = (Value i, g')"
  shows "registerMsg g' msgName w = (Value i, g')"
proof (cases "get_property (msgName2Id g) msgName = Undefined")
  case True
  from registerMsg_tables [OF True, of v] assms
  have "msgName2Id g' msgName = Some i" by auto
  then show ?thesis by (simp add: registerMsg_def get_property_def)
next
  case False
  from registerMsg_known [OF False, of v] assms
  have "get_property (msgName2Id g) msgName = Value i" and "g' = g" by auto
  then show ?thesis by (simp add: registerMsg_def)
qed

lemma registry_ids_distinct:
  assumes "registry_ok g"
  shows "apiName2Id g n = Some i \<Longrightarrow> apiName2Id g n' = Some i \<Longrightarrow> n = n'"
    and "msgName2Id g n = Some i \<Longrightarrow> msgName2Id g n' = Some i \<Longrightarrow> n = n'"
    and "apiName2Id g n = Some i \<Longrightarrow> msgName2Id g n' = Some j \<Longrightarrow> i \<noteq> j"
proof -
  have a: "\<And>n i. apiName2Id g n = Some i \<Longrightarrow> id2ApiName g i = Some n"
    and m: "\<And>n i. msgName2Id g n = Some i \<Longrightarrow> id2MsgName g i = Some n"
    and d: "\<And>n m i. apiName2Id g n = Some i \<Longrightarrow> msgName2Id g m \<noteq> Some i"
    using assms by (auto simp: registry_ok_def)
  show "apiName2Id g n = Some i \<Longrightarrow> apiName2Id g n' = Some i \<Longrightarrow> n = n'"
    using a [of n i] a [of n' i] by simp
  show "msgName2Id g n = Some i \<Longrightarrow> msgName2Id g n' = Some i \<Longrightarrow> n = n'"
    using m [of n i] m [of n' i] by simp
  show "apiName2Id g n = Some i \<Longrightarrow> msgName2Id g n' = Some j \<Longrightarrow> i \<noteq> j"
    using d [of n i n'] by auto
qed

lemma registerApi_keeps_ids:
  shows "apiName2Id g n = Some i \<Longrightarrow> apiName2Id (snd (registerApi g apiName v)) n = Some i"
    and "msgName2Id g n = Some i \<Longrightarrow> msgName2Id (snd (registerApi g apiName v)) n = Some i"
proof -
  assume h: "apiName2Id g n = Some i"
  show "apiName2Id (snd (registerApi g apiName v)) n = Some i"
  proof (cases "get_property (apiName2Id g) apiName = Undefined")
    case True
    then have "apiName \<noteq> n" using h by (auto dest: get_property_Undefined)
    then show ?thesis using h by (simp add: registerApi_tables [OF True])
  next
    case False
    then show ?thesis using h by (simp add: registerApi_known)
  qed
next
  assume h: "msgName2Id g n = Some i"
  show "msgName2Id (snd (registerApi g apiName v)) n = Some i"
  proof (cases "get_property (apiName2Id g) apiName = Undefined")
    case True
    then show ?thesis using h by (simp add: registerApi_tables [OF True])
  next
    case False
    then show ?thesis using h by (simp add: registerApi_known)
  qed
qed

lemma registerMsg_keeps_ids:
  shows "msgName2Id g n = Some i \<Longrightarrow> msgName2Id (snd (registerMsg g msgName v)) n = Some i"
    and "apiName2Id g n = Some i \<Longrightarrow> apiName2Id (snd (registerMsg g msgName v)) n = Some i"
proof -
  assume h: "msgName2Id g n = Some i"
  show "msgName2Id (snd (registerMsg g msgName v)) n = Some i"
  proof (cases "get_property (msgName2Id g) msgName = Undefined")
    case True
    then have "msgName \<noteq> n" using h by (auto dest: get_property_Undefined)
    then show ?thesis using h by (simp add: registerMsg_tables [OF True])
  next
    case False
    then show ?thesis using h by (simp add: registerMsg_known)
  qed
next
  assume h: "apiName2Id g n = Some i"
  show "apiName2Id (snd (registerMsg g msgName v)) n = Some i"
  proof (cases "get_property (msgName2Id g) msgName = Undefined")
    case True
    then show ?thesis using h by (simp add: registerMsg_tables [OF True])
  next
    case False
    then show ?thesis using h by (simp add: registerMsg_known)
  qed
qed

lemma registry_ok_register: "registry_ok g \<Longrightarrow> registry_ok (register g r)"
  by (cases r) (simp_all add: registry_ok_registerApi registry_ok_registerMsg)

lemma registry_ok_registrations: "registry_ok g \<Longrightarrow> registry_ok (foldl register g rs)"
  by (induction rs arbitrary: g) (simp_all add: registry_ok_register)

lemma registrations_keep_ids:
  "apiName2Id g n = Some i \<Longrightarrow> apiName2Id (foldl register g rs) n = Some i"
  "msgName2Id g n = Some i \<Longrightarrow> msgName2Id (foldl register g rs) n = Some i"
proof (induction rs arbitrary: g)
  case Nil
  { case 1 then show ?case by simp }
  { case 2 then show ?case by simp }
next
  case (Cons r rs)
  { case 1
    then have "apiName2Id (register g r) n = Some i"
      by (cases r) (simp_all add: registerApi_keeps_ids registerMsg_keeps_ids)
    then show ?case using Cons.IH(1) by simp }
  { case 2
    then have "msgName2Id (register g r) n = Some i"
      by (cases r) (simp_all add: registerApi_keeps_ids registerMsg_keeps_ids)
    then show ?case using Cons.IH(2) by simp }
qed

section \<open>The order of validation fallbacks\<close>

text \<open>
  C9, as the code has it. \<^verbatim>\<open>validateRequest\<close> and \<^verbatim>\<open>validateResponse\<close> decide in the order
  of the specification, with the explicit validator registered for the name and direction
  and then the custom validator of that name and direction. \<^verbatim>\<open>validateMessage\<close> decides
  in the same order without the custom step: validation disabled gives true, otherwise
  the validator registered for the message decides, otherwise the result is true; this
  is stated for message names other than the inherited member names. The order itself
  raises nothing: the result is an exception only when the validator it consulted threw
  it, so a validator that answers false makes the result false.
\<close>

theorem validation_fallback_order:
  "validateRequest g name d =
     validation_order (enableValidation g) (registered_validator g name Req)
       (custom_validator g name Req) d
   \<and> validateResponse g name d =
     validation_order (enableValidation g) (registered_validator g name Res)
       (custom_validator g name Res) d
   \<and> (name \<notin> set object_prototype_members \<longrightarrow>
        validateMessage call_member g name d =
          validation_order (enableValidation g) (msg_validators g name) None d)
   \<and> (\<forall>e. validation_order enabled explicit custom d = Inl e \<longrightarrow>
          (case explicit of
             Some v \<Rightarrow> v d = Inl e
           | None \<Rightarrow> (case custom of Some c \<Rightarrow> c d = Inl e | None \<Rightarrow> False)))"
  by (auto simp: validateRequest_def validateResponse_def validateMessage_def
      validation_order_def get_property_def split: option.splits)

theorem validation_fallback_order_witness:
  "validateRequest (new_generator login_options) ''user/login'' 0 = Inr False
   \<and> validateResponse (new_generator login_options) ''user/login'' 0 = Inr True
   \<and> validateMessage no_member_call (new_generator chat_options) ''chat/message'' 0 = Inr True
   \<and> validation_order True (Some (\<lambda>d. Inl TypeError)) None (0::nat) = Inl TypeError"
proof -
  have n: "''chat/message'' \<notin> set object_prototype_members"
    by (simp add: object_prototype_members_def)
  have a: "validation_order (enableValidation (new_generator login_options))
             (registered_validator (new_generator login_options) ''user/login'' Req)
             (custom_validator (new_generator login_options) ''user/login'' Req) 0 = Inr False"
    by (simp add: validation_order_def new_generator_def login_options_def default_options_def
        registered_validator_def custom_validator_def slot_def)
  have b: "validation_order (enableValidation (new_generator login_options))
             (registered_validator (new_generator login_options) ''user/login'' Res)
             (custom_validator (new_generator login_options) ''user/login'' Res) 0 = Inr True"
    by (simp add: validation_order_def new_generator_def login_options_def default_options_def
        registered_validator_def custom_validator_def slot_def)
  have c: "validation_order (enableValidation (new_generator chat_options))
             (msg_validators (new_generator chat_options) ''chat/message'') None (0::nat) =
           Inr True"
    by (simp add: validation_order_def new_generator_def chat_options_def default_options_def)
  from validation_fallback_order [where g = "new_generator login_options"
      and name = "''user/login''" and d = 0] a b
    validation_fallback_order [where g = "new_generator chat_options"
      and name = "''chat/message''" and d = 0 and call_member = no_member_call] n c
  show ?thesis by (simp add: validation_order_def)
qed

text \<open>
  Where the sentence of the specification fails. The options hold custom validators for
  the name \<^verbatim>\<open>chat/message\<close> that reject everything, in the request slot and in the
  response slot, and no validator is registered for the message. Whichever slot the
  third step would read for a message, the order of the specification rejects the
  message; \<^verbatim>\<open>validateMessage\<close> accepts it.
\<close>

theorem validation_fallback_order_counterexample:
  "validateMessage no_member_call (new_generator chat_options) ''chat/message'' 0 \<noteq>
     validation_order (enableValidation (new_generator chat_options))
       (msg_validators (new_generator chat_options) ''chat/message'')
       (custom_validator (new_generator chat_options) ''chat/message'' Req) 0
   \<and> validateMessage no_member_call (new_generator chat_options) ''chat/message'' 0 \<noteq>
     validation_order (enableValidation (new_generator chat_options))
       (msg_validators (new_generator chat_options) ''chat/message'')
       (custom_validator (new_generator chat_options) ''chat/message'' Res) 0"
  by (simp add: validateMessage_def validation_order_def new_generator_def chat_options_def
      default_options_def custom_validator_def slot_def get_property_def
      object_prototype_members_def reject_all_def)

section \<open>The codec round trip\<close>

text \<open>
  C8. Let \<open>x\<close> be a value with a JSON form: \<^verbatim>\<open>JSON.stringify\<close> gives a text \<open>s\<close> for it,
  \<^verbatim>\<open>JSON.parse\<close> gives \<open>x\<close> back from \<open>s\<close>, and decoding the encoded bytes of \<open>s\<close> gives
  \<open>s\<close>. Then in \<^verbatim>\<open>json\<close> mode \<^verbatim>\<open>serialize\<close> produces the text \<open>s\<close>, in \<^verbatim>\<open>binary\<close> mode it
  produces the bytes of \<open>s\<close>, and \<^verbatim>\<open>deserialize\<close> recovers \<open>x\<close> from both.
\<close>

theorem codec_round_trip:
  assumes "JSON_stringify R x = Inr (Some s)"
    and "JSON_parse R s = Inr x"
    and "TextDecoder_decode R (TextEncoder_encode R s) = s"
  shows "serialize R g x (Some Json) = Inr (Text s)
       \<and> serialize R g x (Some Binary) = Inr (Bytes (TextEncoder_encode R s))
       \<and> deserialize R (Text s) = Inr x
       \<and> deserialize R (Bytes (TextEncoder_encode R s)) = Inr x
       \<and> round_trip R g x Json = Inr x
       \<and> round_trip R g x Binary = Inr x"
  using assms by (simp add: serialize_def deserialize_def round_trip_def choose_mode_def)

theorem codec_round_trip_witness:
  "round_trip bool_runtime (new_generator default_options) True Json = Inr True
   \<and> round_trip bool_runtime (new_generator default_options) True Binary = Inr True
   \<and> serialize bool_runtime (new_generator default_options) True (Some Binary) =
       Inr (Bytes [116, 114, 117, 101])"
proof -
  have s: "JSON_stringify bool_runtime True = Inr (Some ''true'')"
    by (simp add: bool_runtime_def)
  have p: "JSON_parse bool_runtime ''true'' = Inr True"
    by (simp add: bool_runtime_def)
  have e: "TextEncoder_encode bool_runtime ''true'' = [116, 114, 117, 101]"
    by (simp add: bool_runtime_def)
  have "TextDecoder_decode bool_runtime (TextEncoder_encode bool_runtime t) = t" for t
    by (simp add: bool_runtime_def comp_def unat_of_nat take_bit_eq_mod)
  then have u: "TextDecoder_decode bool_runtime (TextEncoder_encode bool_runtime ''true'') = ''true''" .
  from codec_round_trip [where R = bool_runtime and x = True and s = "''true''"
      and g = "new_generator default_options", OF s p u] e
  show ?thesis by simp
qed

text \<open>For a message name that is an inherited member, \<^verbatim>\<open>validateMessage\<close> hands the message
  to that member: with nothing registered, the result is whatever the call of the member
  yields.\<close>

lemma validateMessage_inherited_name:
  "validateMessage call_member (new_generator default_options) ''__proto__'' d =
     call_member ''__proto__'' d"
  by (simp add: validateMessage_def new_generator_def default_options_def get_property_def
      object_prototype_members_def)

text \<open>The same holds in \<^verbatim>\<open>auto\<close> mode, which sends a text of more than 1024 characters as
  bytes and any shorter text as text, and for the mode taken from the options when the
  argument is omitted.\<close>

lemma codec_round_trip_auto:
  assumes "JSON_stringify R x = Inr (Some s)"
    and "JSON_parse R s = Inr x"
    and "TextDecoder_decode R (TextEncoder_encode R s) = s"
  shows "serialize R g x (Some Auto) =
           Inr (if length s > 1024 then Bytes (TextEncoder_encode R s) else Text s)"
    and "round_trip R g x Auto = Inr x"
    and "(case serialize R g x None of Inl e \<Rightarrow> Inl e | Inr w \<Rightarrow> deserialize R w) = Inr x"
  using assms
  by (cases "serializationMode g";
      simp add: serialize_def deserialize_def round_trip_def choose_mode_def)+

end
